theory Spec2Isabelle
  imports Main "HOL-Library.Signed_Division"
begin

section \<open>Shared vocabulary of package dblock\<close>

text \<open>
  Instants and durations are integers counting nanoseconds (Go's \<^verbatim>\<open>time.Time\<close> and
  \<^verbatim>\<open>time.Duration\<close>). An instant is kept as a number also where the source keeps
  its RFC3339Nano rendering; the database is taken to compare \<^verbatim>\<open>lock_until\<close>
  chronologically.
\<close>

datatype error =
    ErrNotObtained        \<comment> \<open>\<^verbatim>\<open>dblock.ErrNotObtained\<close>\<close>
  | ErrLockNotHeld        \<comment> \<open>\<^verbatim>\<open>dblock.ErrLockNotHeld\<close>\<close>
  | Canceled              \<comment> \<open>\<^verbatim>\<open>context.Canceled\<close>\<close>
  | DeadlineExceeded      \<comment> \<open>\<^verbatim>\<open>context.DeadlineExceeded\<close>\<close>
  | RandFailure           \<comment> \<open>the random source failed in \<^verbatim>\<open>RandomToken\<close>\<close>
  | DuplicateKey          \<comment> \<open>the database refused an INSERT: primary key exists\<close>
  | ConnFailure           \<comment> \<open>the backend could not be reached\<close>
  | InvalidExpire         \<comment> \<open>the key-value store refused a SET with PX below 1\<close>
  | Panic                 \<comment> \<open>a Go run-time panic: slice bound out of range, failed type assertion\<close>

section \<open>The relational backend (rdblock)\<close>

subsection \<open>The database behind the DB interface\<close>

record row =
  lock_name :: string
  lock_until :: int
  locked_at :: int
  locked_by :: string
  token_value :: string
  meta_value :: string
  locked_pid :: string

text \<open>
  The table named by \<^verbatim>\<open>Client.Table\<close>, with \<^verbatim>\<open>lock_name\<close> its primary key, and
  a flag saying that the connection is broken (every call then fails).
\<close>

record DB =
  rows :: "row list"
  down :: bool

text \<open>
  The statements the backend issues, as the database reads them: an INSERT of one row,
  and an UPDATE that applies the SET clause to every row its WHERE clause selects.
\<close>

datatype stmt =
    Insert row
  | Update "row \<Rightarrow> row" "row \<Rightarrow> bool"

text \<open>
  \<^verbatim>\<open>ExecContext\<close>: the error or the number of rows affected, and the table after. An
  UPDATE affects the rows its WHERE clause selects.
\<close>

fun ExecContext :: "stmt \<Rightarrow> DB \<Rightarrow> (error + nat) \<times> DB" where
  "ExecContext (Insert r) db =
     (if down db then (Inl ConnFailure, db)
      else if \<exists>x \<in> set (rows db). lock_name x = lock_name r then (Inl DuplicateKey, db)
      else (Inr 1, db\<lparr>rows := rows db @ [r]\<rparr>))"
| "ExecContext (Update f w) db =
     (if down db then (Inl ConnFailure, db)
      else (Inr (length (filter w (rows db))),
            db\<lparr>rows := map (\<lambda>r. if w r then f r else r) (rows db)\<rparr>))"


subsection \<open>shedLock and its statements\<close>

text \<open>The package variables \<^verbatim>\<open>Hostname\<close> and \<^verbatim>\<open>Pid\<close>.\<close>

record proc =
  Hostname :: string
  ProcPid :: string

text \<open>
  The fields of shedLock. \<open>Until\<close> and \<open>At\<close> hold instants (the source holds their
  RFC3339Nano renderings). The methods below are modelled by their effect: each runs the
  statement whose text is given in the next subsection, read by the database with
  every quoted literal standing for the value it quotes.
\<close>

record shedLock =
  Table :: string
  Name :: string
  At :: int
  Until :: int
  By :: string
  Token :: string
  Meta :: string
  Pid :: string


definition sl_insert :: "proc \<Rightarrow> int \<Rightarrow> shedLock \<Rightarrow> DB \<Rightarrow> bool \<times> DB" where
  "sl_insert p now l db =
     (case ExecContext
             (Insert \<lparr>lock_name = Name l, lock_until = Until l, locked_at = now,
                      locked_by = Hostname p, token_value = Token l, meta_value = Meta l,
                      locked_pid = ProcPid p\<rparr>) db of
        (Inr _, db') \<Rightarrow> (True, db')
      | (Inl _, db') \<Rightarrow> (False, db'))"

definition sl_update :: "proc \<Rightarrow> int \<Rightarrow> shedLock \<Rightarrow> DB \<Rightarrow> (error + bool) \<times> DB" where
  "sl_update p now l db =
     (case ExecContext
             (Update (\<lambda>r. r\<lparr>lock_until := Until l, locked_at := now, locked_by := Hostname p,
                             token_value := Token l, meta_value := Meta l,
                             locked_pid := ProcPid p\<rparr>)
                     (\<lambda>r. lock_name r = Name l \<and> lock_until r \<le> Until l)) db of
        (Inl e, db') \<Rightarrow> (Inl e, db')
      | (Inr rowsAffected, db') \<Rightarrow> (Inr (rowsAffected > 0), db'))"

definition sl_extend :: "shedLock \<Rightarrow> DB \<Rightarrow> (error + bool) \<times> DB" where
  "sl_extend l db =
     (case ExecContext
             (Update (\<lambda>r. r\<lparr>lock_until := Until l\<rparr>)
                     (\<lambda>r. lock_name r = Name l \<and> token_value r = Token l)) db of
        (Inl e, db') \<Rightarrow> (Inl e, db')
      | (Inr rowsAffected, db') \<Rightarrow> (Inr (rowsAffected > 0), db'))"

definition second :: int where
  "second = 1000000000"

definition sl_unlock :: "int \<Rightarrow> shedLock \<Rightarrow> DB \<Rightarrow> (error + bool) \<times> DB" where
  "sl_unlock now l db =
     (let l' = l\<lparr>Until := now - second\<rparr> in
      case ExecContext
             (Update (\<lambda>r. r\<lparr>lock_until := Until l'\<rparr>)
                     (\<lambda>r. lock_name r = Name l' \<and> token_value r = Token l')) db of
        (Inl e, db') \<Rightarrow> (Inl e, db')
      | (Inr rowsAffected, db') \<Rightarrow> (Inr (rowsAffected > 0), db'))"

subsection \<open>The text of the statements\<close>

text \<open>
  Each method of shedLock fills a template with \<^verbatim>\<open>strings.ReplaceAll\<close> and passes the
  text to the database with no further argument. Strings are byte lists; for the UTF-8
  strings Go ranges over, treating the ASCII quote byte by byte is treating it rune by
  rune.
\<close>

definition quote :: char where
  "quote = CHR 0x27"

definition escape :: char where
  "escape = CHR 0x5C"

text \<open>The loop of \<^verbatim>\<open>SingleQuote\<close> over the runes of \<open>s\<close>, \<open>out\<close> being what it has appended.\<close>

fun quote_runes :: "string \<Rightarrow> string \<Rightarrow> string" where
  "quote_runes out [] = out"
| "quote_runes out (r # rs) =
     quote_runes (if r = quote then out @ [escape, r] else out @ [r]) rs"

definition SingleQuote :: "string \<Rightarrow> string" where
  "SingleQuote s = quote_runes [quote] s @ [quote]"

text \<open>
  \<^verbatim>\<open>strings.ReplaceAll(s, old, new)\<close>: the occurrences of \<open>old\<close> that do not overlap, from
  the left; an empty \<open>old\<close> matches before every byte and at the end.
\<close>

function replace_from :: "string \<Rightarrow> string \<Rightarrow> string \<Rightarrow> string" where
  "replace_from [] old new = []"
| "replace_from (c # cs) old new =
     (if old \<noteq> [] \<and> take (length old) (c # cs) = old
      then new @ replace_from (drop (length old) (c # cs)) old new
      else c # replace_from cs old new)"
  by pat_completeness auto
termination
  by (relation "measure (\<lambda>(s, old, new). length s)") (auto simp: neq_Nil_conv)

definition ReplaceAll :: "string \<Rightarrow> string \<Rightarrow> string \<Rightarrow> string" where
  "ReplaceAll s old new =
     (if old = [] then new @ concat (map (\<lambda>c. c # new) s) else replace_from s old new)"

text \<open>
  What a method hands to \<^verbatim>\<open>ExecContext\<close> or \<^verbatim>\<open>QueryRowContext\<close>: the query text and the
  list of bound arguments. \<open>fmt\<close> is \<^verbatim>\<open>Format(time.RFC3339Nano)\<close>.
\<close>

type_synonym query = "string \<times> string list"



definition update_text :: "proc \<Rightarrow> (int \<Rightarrow> string) \<Rightarrow> int \<Rightarrow> shedLock \<Rightarrow> query" where
  "update_text p fmt now l =
     (let s = ''UPDATE {Table} SET lock_until = {Until}, ''
              @ ''locked_at = {At}, locked_by = {By}, ''
              @ ''token_value = {Token}, meta_value = {Meta}, locked_pid = {LockedPid} ''
              @ ''WHERE lock_name = {Name} AND lock_until <= {Until}'';
          s = ReplaceAll s ''{Table}'' (Table l);
          s = ReplaceAll s ''{Name}'' (SingleQuote (Name l));
          s = ReplaceAll s ''{Until}'' (SingleQuote (fmt (Until l)));
          s = ReplaceAll s ''{At}'' (SingleQuote (fmt now));
          s = ReplaceAll s ''{By}'' (SingleQuote (Hostname p));
          s = ReplaceAll s ''{Token}'' (SingleQuote (Token l));
          s = ReplaceAll s ''{Meta}'' (SingleQuote (Meta l));
          s = ReplaceAll s ''{LockedPid}'' (SingleQuote (ProcPid p))
      in (s, []))"



subsection \<open>Client.obtain\<close>

record Client =
  ClientTable :: string

definition rd_obtain ::
  "proc \<Rightarrow> int \<Rightarrow> Client \<Rightarrow> string \<Rightarrow> string \<Rightarrow> string \<Rightarrow> int \<Rightarrow> DB \<Rightarrow> (error + bool) \<times> DB" where
  "rd_obtain p now c key token meta lockUntil db =
     (let sh = \<lparr>Table = ClientTable c, Name = key, At = 0, Until = lockUntil, By = [],
                Token = token, Meta = meta, Pid = []\<rparr> in
      case sl_insert p now sh db of
        (True, db') \<Rightarrow> (Inr True, db')
      | (False, db') \<Rightarrow> sl_update p now sh db')"

subsection \<open>The Lock handle of the relational backend\<close>

record rdLock =
  rd_Client :: Client
  rd_Key :: string
  rd_token :: string
  rd_metadata :: string
  rd_Until :: int

definition rd_Token :: "rdLock \<Rightarrow> string" where
  "rd_Token l = rd_token l"

definition rd_Metadata :: "rdLock \<Rightarrow> string" where
  "rd_Metadata l = rd_metadata l"

text \<open>
  The shedLock that TTL, Refresh and Release start from; the fields they leave out have
  Go's zero value.
\<close>

definition handle_shedLock :: "rdLock \<Rightarrow> int \<Rightarrow> shedLock" where
  "handle_shedLock l until =
     \<lparr>Table = ClientTable (rd_Client l), Name = rd_Key l, At = 0, Until = until, By = [],
      Token = rd_token l, Meta = [], Pid = []\<rparr>"


definition rd_Refresh :: "int \<Rightarrow> rdLock \<Rightarrow> int \<Rightarrow> DB \<Rightarrow> (error + unit) \<times> DB" where
  "rd_Refresh now l ttl db =
     (case sl_extend (handle_shedLock l (now + ttl)) db of
        (Inl e, db') \<Rightarrow> (Inl e, db')
      | (Inr True, db') \<Rightarrow> (Inr (), db')
      | (Inr False, db') \<Rightarrow> (Inl ErrNotObtained, db'))"

definition rd_Release :: "int \<Rightarrow> rdLock \<Rightarrow> DB \<Rightarrow> (error + unit) \<times> DB" where
  "rd_Release now l db =
     (case sl_unlock now (handle_shedLock l 0) db of
        (Inl e, db') \<Rightarrow> (Inl e, db')
      | (Inr False, db') \<Rightarrow> (Inl ErrLockNotHeld, db')
      | (Inr True, db') \<Rightarrow> (Inr (), db'))"

section \<open>The key-value backend (redislock)\<close>

subsection \<open>The store behind the RedisClient interface\<close>

text \<open>
  A key holds a value and the instant, on the server's millisecond clock, at which it
  expires (this package sets every key with PX). An entry whose instant has come is
  absent to every command. The flag says that the connection is broken. The instant
  \<open>now\<close> that the commands, the scripts and the methods of the handle take is the
  reading of the server's clock, in milliseconds.
\<close>

record Redis =
  keys :: "string \<Rightarrow> (string \<times> int) option"
  redis_down :: bool

datatype reply = Nil | Status string | Integer int

definition millisecond :: int where
  "millisecond = 1000000"

definition lookup :: "int \<Rightarrow> Redis \<Rightarrow> string \<Rightarrow> (string \<times> int) option" where
  "lookup now kv key =
     (case keys kv key of
        None \<Rightarrow> None
      | Some (v, e) \<Rightarrow> if now < e then Some (v, e) else None)"

definition GET :: "int \<Rightarrow> Redis \<Rightarrow> string \<Rightarrow> string option" where
  "GET now kv key = map_option fst (lookup now kv key)"

text \<open>SET key value PX px, with and without NX; a PX below 1 is refused before anything else.\<close>

definition SET_PX :: "int \<Rightarrow> string \<Rightarrow> string \<Rightarrow> int \<Rightarrow> Redis \<Rightarrow> (error + reply) \<times> Redis" where
  "SET_PX now key v px kv =
     (if px \<le> 0 then (Inl InvalidExpire, kv)
      else (Inr (Status ''OK''), kv\<lparr>keys := (keys kv)(key \<mapsto> (v, now + px))\<rparr>))"

definition SET_NX_PX :: "int \<Rightarrow> string \<Rightarrow> string \<Rightarrow> int \<Rightarrow> Redis \<Rightarrow> (error + reply) \<times> Redis" where
  "SET_NX_PX now key v px kv =
     (if px \<le> 0 then (Inl InvalidExpire, kv)
      else if lookup now kv key \<noteq> None then (Inr Nil, kv)
      else (Inr (Status ''OK''), kv\<lparr>keys := (keys kv)(key \<mapsto> (v, now + px))\<rparr>))"

text \<open>GETRANGE on the stored bytes, both indices inclusive, negative ones counted from the end.\<close>

definition GETRANGE :: "int \<Rightarrow> Redis \<Rightarrow> string \<Rightarrow> int \<Rightarrow> int \<Rightarrow> string" where
  "GETRANGE now kv key start stop =
     (case GET now kv key of
        None \<Rightarrow> []
      | Some v \<Rightarrow>
          (let n = int (length v);
               s0 = (if start < 0 then n + start else start);
               e0 = (if stop < 0 then n + stop else stop);
               s1 = max 0 s0;
               e1 = max 0 e0;
               e2 = (if n \<le> e1 then n - 1 else e1)
           in if e2 < s1 \<or> n = 0 then [] else take (nat (e2 - s1 + 1)) (drop (nat s1) v)))"

text \<open>Lua's \<^verbatim>\<open>string.sub(s, i, j)\<close>: positions from 1, both inclusive.\<close>

definition string_sub :: "string \<Rightarrow> int \<Rightarrow> int \<Rightarrow> string" where
  "string_sub s i j =
     (let n = int (length s);
          i1 = (if i < 0 then max (n + i + 1) 1 else if i = 0 then 1 else i);
          j1 = (if j < 0 then n + j + 1 else if n < j then n else j)
      in if j1 < i1 then [] else take (nat (j1 - i1 + 1)) (drop (nat (i1 - 1)) s))"




subsection \<open>The four scripts\<close>




definition luaObtain :: "int \<Rightarrow> string \<Rightarrow> string \<Rightarrow> nat \<Rightarrow> int \<Rightarrow> Redis \<Rightarrow> (error + reply) \<times> Redis" where
  "luaObtain now key arg1 arg2 arg3 kv =
     (case SET_NX_PX now key arg1 arg3 kv of
        (Inl e, kv') \<Rightarrow> (Inl e, kv')
      | (Inr (Status ok), kv') \<Rightarrow> (Inr (Status ''OK''), kv')
      | (Inr (Integer i), kv') \<Rightarrow> (Inr (Status ''OK''), kv')
      | (Inr Nil, kv') \<Rightarrow>
          (let offset = int arg2 in
           if GETRANGE now kv' key 0 (offset - 1) = string_sub arg1 1 offset
           then SET_PX now key arg1 arg3 kv'
           else (Inr Nil, kv')))"

text \<open>\<^verbatim>\<open>Script.Run(...).Result()\<close>: the script runs as one step unless the store is unreachable.\<close>

definition Run :: "(Redis \<Rightarrow> (error + reply) \<times> Redis) \<Rightarrow> Redis \<Rightarrow> (error + reply) \<times> Redis" where
  "Run script kv = (if redis_down kv then (Inl ConnFailure, kv) else script kv)"

subsection \<open>Client.obtain and the Lock handle\<close>

definition kv_obtain ::
  "int \<Rightarrow> string \<Rightarrow> string \<Rightarrow> nat \<Rightarrow> int \<Rightarrow> Redis \<Rightarrow> (error + bool) \<times> Redis" where
  "kv_obtain now key val tokenLen ttlVal kv =
     (case Run (luaObtain now key val tokenLen ttlVal) kv of
        (Inr Nil, kv') \<Rightarrow> (Inr False, kv')
      | (Inl e, kv') \<Rightarrow> (Inl e, kv')
      | (Inr _, kv') \<Rightarrow> (Inr True, kv'))"

record kvLock =
  kv_Key :: string
  kv_value :: string
  kv_tokenLen :: nat

definition kv_Token :: "kvLock \<Rightarrow> error + string" where
  "kv_Token l =
     (if kv_tokenLen l \<le> length (kv_value l) then Inr (take (kv_tokenLen l) (kv_value l))
      else Inl Panic)"

definition kv_Metadata :: "kvLock \<Rightarrow> error + string" where
  "kv_Metadata l =
     (if kv_tokenLen l \<le> length (kv_value l) then Inr (drop (kv_tokenLen l) (kv_value l))
      else Inl Panic)"




section \<open>Obtain: the retry loop of both backends\<close>

subsection \<open>Options and the retry strategy\<close>

text \<open>
  A \<^verbatim>\<open>RetryStrategy\<close> is an object whose \<^verbatim>\<open>NextBackoff()\<close> yields one duration per
  call; it is represented by the function from the number of earlier calls to the
  duration.
\<close>

type_synonym RetryStrategy = "nat \<Rightarrow> int"

record Options =
  RetryStrategy :: "RetryStrategy option"
  OptMeta :: string
  OptToken :: string

text \<open>
  Modelled from the spec: \<^verbatim>\<open>NoRetry\<close> is called by \<^verbatim>\<open>GetRetryStrategy\<close> and its file is
  not among the sources. The spec: ``Default RetryStrategy: no retry --- a single
  attempt, immediate failure if busy'' and ``a backoff value signalling stop (less than
  one time unit)''. Its \<^verbatim>\<open>NextBackoff\<close> is therefore 0 at every call.
\<close>

definition NoRetry :: RetryStrategy where
  "NoRetry = (\<lambda>_. 0)"

definition GetRetryStrategy :: "Options \<Rightarrow> RetryStrategy" where
  "GetRetryStrategy opt = (case RetryStrategy opt of Some r \<Rightarrow> r | None \<Rightarrow> NoRetry)"

subsection \<open>The context\<close>

text \<open>
  A context is its deadline, if it has one, and the instant at which the caller cancels
  it, if the caller ever does.
\<close>

record ctx =
  Deadline :: "int option"
  cancel_at :: "int option"

text \<open>The instant at which \<^verbatim>\<open>Done()\<close> is closed, for a context whose deadline is \<open>dl\<close>.\<close>

definition done_at :: "int \<Rightarrow> int option \<Rightarrow> int" where
  "done_at dl cancel = (case cancel of None \<Rightarrow> dl | Some t \<Rightarrow> min dl t)"

text \<open>What \<^verbatim>\<open>Err()\<close> returns once \<^verbatim>\<open>Done()\<close> is closed.\<close>

definition ctx_Err :: "int \<Rightarrow> int option \<Rightarrow> error" where
  "ctx_Err dl cancel =
     (case cancel of None \<Rightarrow> DeadlineExceeded
      | Some t \<Rightarrow> if t < dl then Canceled else DeadlineExceeded)"

subsection \<open>The loop\<close>

text \<open>
  What a call of Obtain leaves behind: the instant at which it returns, the number of
  calls of \<^verbatim>\<open>obtain\<close> it made, its result and the backend's state.
\<close>

record ('h, 's) outcome =
  returned_at :: int
  attempts :: nat
  result :: "error + 'h"
  store :: 's

text \<open>
  The \<^verbatim>\<open>for\<close> loop of \<^verbatim>\<open>Client.Obtain\<close>, the same text in both backends. \<open>att\<close> is the
  backend's \<^verbatim>\<open>obtain\<close> at an instant, \<open>h\<close> the handle returned on success, \<open>dl\<close> the
  deadline of the context (it always has one when the loop starts), \<open>n\<close> the number of
  attempts made so far. A backend call takes no time and is made in full whatever the
  state of the context; the ticker fires \<open>backoff\<close> after it is set. When it fires at
  the very instant \<^verbatim>\<open>Done()\<close> is closed, \<^verbatim>\<open>select\<close> may take either case: \<open>pick n\<close> says
  whether it takes \<^verbatim>\<open>Done()\<close>.
\<close>

function acquire ::
  "(int \<Rightarrow> 's \<Rightarrow> (error + bool) \<times> 's) \<Rightarrow> 'h \<Rightarrow> RetryStrategy \<Rightarrow> (nat \<Rightarrow> bool) \<Rightarrow>
     int \<Rightarrow> int option \<Rightarrow> int \<Rightarrow> nat \<Rightarrow> 's \<Rightarrow> ('h, 's) outcome" where
  "acquire att h retry pick dl cancel now n s =
     (case att now s of
        (Inl e, s') \<Rightarrow> \<lparr>returned_at = now, attempts = Suc n, result = Inl e, store = s'\<rparr>
      | (Inr True, s') \<Rightarrow> \<lparr>returned_at = now, attempts = Suc n, result = Inr h, store = s'\<rparr>
      | (Inr False, s') \<Rightarrow>
          (let backoff = retry n in
           if backoff < 1
           then \<lparr>returned_at = now, attempts = Suc n, result = Inl ErrNotObtained, store = s'\<rparr>
           else if done_at dl cancel < now + backoff
                   \<or> (done_at dl cancel = now + backoff \<and> pick n)
           then \<lparr>returned_at = max now (done_at dl cancel), attempts = Suc n,
                 result = Inl (ctx_Err dl cancel), store = s'\<rparr>
           else acquire att h retry pick dl cancel (now + backoff) (Suc n) s'))"
  by pat_completeness auto
termination
  by (relation "measure (\<lambda>(att, h, retry, pick, dl, cancel, now, n, s). nat (dl - now))")
     (auto simp: done_at_def split: option.splits)

subsection \<open>The token of a call\<close>

text \<open>
  Both backends take the caller's token and, when it is empty, a random one. \<open>rnd\<close> is
  what \<^verbatim>\<open>RandomToken\<close> yields in this call, \<open>None\<close> when the random source fails.
\<close>

definition choose_token :: "Options \<Rightarrow> string option \<Rightarrow> error + string" where
  "choose_token opt rnd =
     (if OptToken opt = [] then (case rnd of None \<Rightarrow> Inl RandFailure | Some t \<Rightarrow> Inr t)
      else Inr (OptToken opt))"

subsection \<open>Client.Obtain of the relational backend\<close>

text \<open>\<open>opt\<close> is the \<^verbatim>\<open>Options\<close> value after the caller's option functions have been applied.\<close>

definition default_table :: "Client \<Rightarrow> Client" where
  "default_table cl = (if ClientTable cl = [] then cl\<lparr>ClientTable := ''shedlock''\<rparr> else cl)"

definition rd_Obtain ::
  "proc \<Rightarrow> string option \<Rightarrow> (nat \<Rightarrow> bool) \<Rightarrow> ctx \<Rightarrow> int \<Rightarrow> Client \<Rightarrow> string \<Rightarrow> int \<Rightarrow>
     Options \<Rightarrow> DB \<Rightarrow> (rdLock, DB) outcome" where
  "rd_Obtain p rnd pick c now cl key ttl opt db =
     (case choose_token opt rnd of
        Inl e \<Rightarrow> \<lparr>returned_at = now, attempts = 0, result = Inl e, store = db\<rparr>
      | Inr token \<Rightarrow>
          (let retry = GetRetryStrategy opt;
               lockUntil = now + ttl;
               dl = (case Deadline c of None \<Rightarrow> lockUntil | Some d \<Rightarrow> d)
           in acquire (\<lambda>t. rd_obtain p t (default_table cl) key token (OptMeta opt) lockUntil)
                \<lparr>rd_Client = default_table cl, rd_Key = key, rd_token = token,
                 rd_metadata = OptMeta opt, rd_Until = lockUntil\<rparr>
                retry pick dl (cancel_at c) now 0 db))"

subsection \<open>Client.Obtain of the key-value backend\<close>

text \<open>The store's clock shows the instant in milliseconds.\<close>

definition or_default :: "Options option \<Rightarrow> Options" where
  "or_default opt =
     (case opt of None \<Rightarrow> \<lparr>RetryStrategy = None, OptMeta = [], OptToken = []\<rparr> | Some o' \<Rightarrow> o')"

definition kv_Obtain ::
  "string option \<Rightarrow> (nat \<Rightarrow> bool) \<Rightarrow> ctx \<Rightarrow> int \<Rightarrow> string \<Rightarrow> int \<Rightarrow> Options option \<Rightarrow>
     Redis \<Rightarrow> (kvLock, Redis) outcome" where
  "kv_Obtain rnd pick c now key ttl opt kv =
     (case choose_token (or_default opt) rnd of
        Inl e \<Rightarrow> \<lparr>returned_at = now, attempts = 0, result = Inl e, store = kv\<rparr>
      | Inr token \<Rightarrow>
          (let val = token @ OptMeta (or_default opt);
               ttlVal = ttl sdiv millisecond;
               retry = GetRetryStrategy (or_default opt);
               dl = (case Deadline c of None \<Rightarrow> now + ttl | Some d \<Rightarrow> d)
           in acquire (\<lambda>t. kv_obtain (t div millisecond) key val (length token) ttlVal)
                \<lparr>kv_Key = key, kv_value = val, kv_tokenLen = length token\<rparr>
                retry pick dl (cancel_at c) now 0 kv))"

section \<open>The relational backend as a sequence of calls\<close>

text \<open>
  The calls that reach the table, each one step: \<^verbatim>\<open>Client.obtain\<close> with its key, token,
  metadata and new \<open>lock_until\<close>, and Refresh, Release and TTL through a handle.
\<close>

datatype rd_call =
    CallObtain Client string string string int
  | CallRefresh rdLock int
  | CallRelease rdLock
  | CallTTL rdLock

fun rd_step :: "proc \<Rightarrow> int \<Rightarrow> rd_call \<Rightarrow> DB \<Rightarrow> DB" where
  "rd_step p now (CallObtain cl key token meta lockUntil) db =
     snd (rd_obtain p now cl key token meta lockUntil db)"
| "rd_step p now (CallRefresh l ttl) db = snd (rd_Refresh now l ttl db)"
| "rd_step p now (CallRelease l) db = snd (rd_Release now l db)"
| "rd_step p now (CallTTL l) db = db"

text \<open>The rows of a key whose lease is live at instant \<open>t\<close>.\<close>

definition live_rows :: "int \<Rightarrow> string \<Rightarrow> DB \<Rightarrow> row list" where
  "live_rows t key db = filter (\<lambda>r. lock_name r = key \<and> t < lock_until r) (rows db)"

section \<open>Lemmas about the model\<close>

subsection \<open>Statements that select no row\<close>





subsection \<open>The prefix comparison of the obtain script\<close>

lemma getrange_prefix:
  "GET now kv key = Some stored \<Longrightarrow> 0 < n \<Longrightarrow>
   GETRANGE now kv key 0 (int n - 1) = take n stored"
  by (auto simp: GETRANGE_def Let_def min_def max_def)

lemma string_sub_prefix: "string_sub (t @ m) 1 (int (length t)) = t"
  by (auto simp: string_sub_def Let_def)

subsection \<open>One iteration of the loop, branch by branch\<close>

declare acquire.simps [simp del]

lemma acquire_err:
  "att now s = (Inl e, s') \<Longrightarrow>
   acquire att h retry pick dl cancel now n s
     = \<lparr>returned_at = now, attempts = Suc n, result = Inl e, store = s'\<rparr>"
  by (simp add: acquire.simps[of att h retry pick dl cancel now n s])

lemma acquire_ok:
  "att now s = (Inr True, s') \<Longrightarrow>
   acquire att h retry pick dl cancel now n s
     = \<lparr>returned_at = now, attempts = Suc n, result = Inr h, store = s'\<rparr>"
  by (simp add: acquire.simps[of att h retry pick dl cancel now n s])

lemma acquire_stop:
  "att now s = (Inr False, s') \<Longrightarrow> retry n < 1 \<Longrightarrow>
   acquire att h retry pick dl cancel now n s
     = \<lparr>returned_at = now, attempts = Suc n, result = Inl ErrNotObtained, store = s'\<rparr>"
  by (simp add: acquire.simps[of att h retry pick dl cancel now n s])

lemma acquire_done:
  "att now s = (Inr False, s') \<Longrightarrow> \<not> retry n < 1 \<Longrightarrow>
   done_at dl cancel < now + retry n \<or> (done_at dl cancel = now + retry n \<and> pick n) \<Longrightarrow>
   acquire att h retry pick dl cancel now n s
     = \<lparr>returned_at = max now (done_at dl cancel), attempts = Suc n,
        result = Inl (ctx_Err dl cancel), store = s'\<rparr>"
  by (simp add: acquire.simps[of att h retry pick dl cancel now n s])

lemma acquire_tick:
  "att now s = (Inr False, s') \<Longrightarrow> \<not> retry n < 1 \<Longrightarrow>
   \<not> (done_at dl cancel < now + retry n \<or> (done_at dl cancel = now + retry n \<and> pick n)) \<Longrightarrow>
   acquire att h retry pick dl cancel now n s
     = acquire att h retry pick dl cancel (now + retry n) (Suc n) s'"
  by (auto simp add: acquire.simps[of att h retry pick dl cancel now n s] Let_def)

lemma acquire_cases [case_names err ok stop cancelled tick]:
  obtains e s' where "att now s = (Inl e, s')"
  | s' where "att now s = (Inr True, s')"
  | s' where "att now s = (Inr False, s')" "retry n < 1"
  | s' where "att now s = (Inr False, s')" "\<not> retry n < 1"
      "done_at dl cancel < now + retry n \<or> (done_at dl cancel = now + retry n \<and> pick n)"
  | s' where "att now s = (Inr False, s')" "\<not> retry n < 1"
      "\<not> (done_at dl cancel < now + retry n \<or> (done_at dl cancel = now + retry n \<and> pick n))"
proof (cases "att now s")
  case (Pair r s')
  then show ?thesis using that by (cases r) auto
qed

lemma done_at_le: "done_at dl cancel \<le> dl"
  by (simp add: done_at_def split: option.splits)

subsection \<open>The loop as a whole\<close>

lemma acquire_returned_le:
  "now \<le> dl \<Longrightarrow> returned_at (acquire att h retry pick dl cancel now n s) \<le> dl"
proof (induction att h retry pick dl cancel now n s rule: acquire.induct)
  case (1 att h retry pick dl cancel now n s)
  show ?case
  proof (cases rule: acquire_cases[where att=att and now=now and s=s and retry=retry
        and n=n and dl=dl and cancel=cancel and pick=pick])
    case (err e s')
    then show ?thesis using "1.prems" by (simp add: acquire_err)
  next
    case (ok s')
    then show ?thesis using "1.prems" by (simp add: acquire_ok)
  next
    case (stop s')
    then show ?thesis using "1.prems" by (simp add: acquire_stop)
  next
    case (cancelled s')
    then show ?thesis using "1.prems" done_at_le[of dl cancel] by (simp add: acquire_done)
  next
    case (tick s')
    have le: "now + retry n \<le> dl"
      using tick(3) done_at_le[of dl cancel] by linarith
    have "returned_at (acquire att h retry pick dl cancel (now + retry n) (Suc n) s') \<le> dl"
      using "1.IH"[OF tick(1)[symmetric] _ _ _ _ _ le] tick by simp
    then show ?thesis using tick by (simp add: acquire_tick)
  qed
qed

lemma acquire_not_obtained:
  "\<forall>t s. fst (att t s) \<noteq> Inl ErrNotObtained \<Longrightarrow>
   result (acquire att h retry pick dl cancel now n s) = Inl ErrNotObtained \<Longrightarrow>
   retry (attempts (acquire att h retry pick dl cancel now n s) - 1) < 1"
proof (induction att h retry pick dl cancel now n s rule: acquire.induct)
  case (1 att h retry pick dl cancel now n s)
  show ?case
  proof (cases rule: acquire_cases[where att=att and now=now and s=s and retry=retry
        and n=n and dl=dl and cancel=cancel and pick=pick])
    case (err e s')
    have "fst (att now s) \<noteq> Inl ErrNotObtained" using "1.prems"(1) by blast
    then have "e \<noteq> ErrNotObtained" using err by simp
    then show ?thesis using "1.prems"(2) err by (simp add: acquire_err)
  next
    case (ok s')
    then show ?thesis using "1.prems" by (simp add: acquire_ok)
  next
    case (stop s')
    then show ?thesis using "1.prems" by (simp add: acquire_stop)
  next
    case (cancelled s')
    then show ?thesis
      using "1.prems" by (simp add: acquire_done ctx_Err_def split: option.splits if_splits)
  next
    case (tick s')
    then show ?thesis
      using "1.prems" "1.IH"[OF tick(1)[symmetric]] by (simp add: acquire_tick)
  qed
qed

lemma rd_obtain_error: "fst (rd_obtain p t cl key token meta lu db) \<noteq> Inl ErrNotObtained"
  by (auto simp: rd_obtain_def sl_insert_def sl_update_def Let_def
      split: prod.splits sum.splits bool.splits if_splits)

lemma kv_obtain_error: "fst (kv_obtain t key v n px kv) \<noteq> Inl ErrNotObtained"
  by (auto simp: kv_obtain_def Run_def luaObtain_def SET_NX_PX_def SET_PX_def Let_def
      split: prod.splits sum.splits reply.splits if_splits)

lemma ctx_Err_cases: "ctx_Err dl cancel = Canceled \<or> ctx_Err dl cancel = DeadlineExceeded"
  by (simp add: ctx_Err_def split: option.splits)

lemma acquire_stop_now:
  assumes "retry n < 1"
  shows "attempts (acquire att h retry pick dl cancel now n s) = Suc n
       \<and> returned_at (acquire att h retry pick dl cancel now n s) = now
       \<and> store (acquire att h retry pick dl cancel now n s) = snd (att now s)
       \<and> (fst (att now s) = Inr False \<longrightarrow>
            result (acquire att h retry pick dl cancel now n s) = Inl ErrNotObtained)"
proof (cases rule: acquire_cases[where att=att and now=now and s=s and retry=retry
      and n=n and dl=dl and cancel=cancel and pick=pick])
  case (err e s')
  then show ?thesis by (simp add: acquire_err)
next
  case (ok s')
  then show ?thesis by (simp add: acquire_ok)
next
  case (stop s')
  then show ?thesis by (simp add: acquire_stop)
next
  case (cancelled s')
  then show ?thesis using assms by simp
next
  case (tick s')
  then show ?thesis using assms by simp
qed

lemma acquire_success:
  "result (acquire att h retry pick dl cancel now n s) = Inr h' \<Longrightarrow>
   h' = h \<and> (\<exists>s0. att (returned_at (acquire att h retry pick dl cancel now n s)) s0
                  = (Inr True, store (acquire att h retry pick dl cancel now n s)))"
proof (induction att h retry pick dl cancel now n s rule: acquire.induct)
  case (1 att h retry pick dl cancel now n s)
  show ?case
  proof (cases rule: acquire_cases[where att=att and now=now and s=s and retry=retry
        and n=n and dl=dl and cancel=cancel and pick=pick])
    case (err e s')
    then show ?thesis using "1.prems" by (simp add: acquire_err)
  next
    case (ok s')
    then show ?thesis using "1.prems" by (auto simp add: acquire_ok)
  next
    case (stop s')
    then show ?thesis using "1.prems" by (simp add: acquire_stop)
  next
    case (cancelled s')
    then show ?thesis using "1.prems" by (simp add: acquire_done)
  next
    case (tick s')
    then show ?thesis
      using "1.prems" "1.IH"[OF tick(1)[symmetric]] by (simp add: acquire_tick)
  qed
qed

lemma kv_obtain_success_stored:
  "kv_obtain t key v n px kv = (Inr True, kv') \<Longrightarrow> GET t kv' key = Some v"
  by (auto simp: kv_obtain_def Run_def luaObtain_def SET_NX_PX_def SET_PX_def Let_def GET_def
      lookup_def split: prod.splits sum.splits reply.splits if_splits)


subsection \<open>Filling a template\<close>

declare replace_from.simps [simp del]

lemma replace_from_Nil: "replace_from [] old new = []"
  by (simp add: replace_from.simps)

lemma replace_from_hit:
  "take (length old) (c # cs) = old \<Longrightarrow> old \<noteq> [] \<Longrightarrow>
   replace_from (c # cs) old new = new @ replace_from (drop (length old) (c # cs)) old new"
  by (simp add: replace_from.simps)

lemma replace_from_skip:
  "c \<noteq> hd old \<Longrightarrow> replace_from (c # cs) old new = c # replace_from cs old new"
  by (cases old) (auto simp: replace_from.simps)

lemma replace_from_miss:
  "take (length old) (c # cs) \<noteq> old \<Longrightarrow>
   replace_from (c # cs) old new = c # replace_from cs old new"
  by (simp add: replace_from.simps)

lemma replace_from_clean:
  "hd old \<notin> set a \<Longrightarrow> old \<noteq> [] \<Longrightarrow>
   replace_from (a @ s) old new = a @ replace_from s old new"
proof (induction a)
  case Nil
  then show ?case by simp
next
  case (Cons c a)
  then have "take (length old) (c # (a @ s)) \<noteq> old"
    by (cases old) auto
  then show ?case using Cons by (simp add: replace_from_miss)
qed

lemma replace_from_clean_end:
  "hd old \<notin> set a \<Longrightarrow> old \<noteq> [] \<Longrightarrow> replace_from a old new = a"
  using replace_from_clean[of old a "[]" new] by (simp add: replace_from_Nil)

lemmas fill = ReplaceAll_def Let_def replace_from_Nil replace_from_hit replace_from_miss
  replace_from_skip replace_from_clean

lemma quote_runes_append:
  "quote_runes out s = out @ concat (map (\<lambda>r. if r = quote then [escape, r] else [r]) s)"
  by (induction s arbitrary: out) auto

lemma SingleQuote_eq:
  "SingleQuote s = quote # concat (map (\<lambda>r. if r = quote then [escape, r] else [r]) s) @ [quote]"
  by (simp add: SingleQuote_def quote_runes_append)

lemma SingleQuote_clean: "CHR ''{'' \<notin> set s \<Longrightarrow> CHR ''{'' \<notin> set (SingleQuote s)"
  by (auto simp: SingleQuote_eq quote_def escape_def split: if_splits)





lemma update_text_shape:
  assumes "CHR ''{'' \<notin> set (Table l)" and "CHR ''{'' \<notin> set (Name l)"
    and "CHR ''{'' \<notin> set (fmt (Until l))" and "CHR ''{'' \<notin> set (fmt now)"
    and "CHR ''{'' \<notin> set (Hostname p)" and "CHR ''{'' \<notin> set (Token l)"
    and "CHR ''{'' \<notin> set (Meta l)" and "CHR ''{'' \<notin> set (ProcPid p)"
  shows "fst (update_text p fmt now l) =
    ''UPDATE '' @ Table l @ '' SET lock_until = '' @ SingleQuote (fmt (Until l))
      @ '', locked_at = '' @ SingleQuote (fmt now)
      @ '', locked_by = '' @ SingleQuote (Hostname p)
      @ '', token_value = '' @ SingleQuote (Token l)
      @ '', meta_value = '' @ SingleQuote (Meta l)
      @ '', locked_pid = '' @ SingleQuote (ProcPid p)
      @ '' WHERE lock_name = '' @ SingleQuote (Name l)
      @ '' AND lock_until <= '' @ SingleQuote (fmt (Until l))"
  using assms(1) SingleQuote_clean[OF assms(2)] SingleQuote_clean[OF assms(3)]
    SingleQuote_clean[OF assms(4)] SingleQuote_clean[OF assms(5)]
    SingleQuote_clean[OF assms(6)] SingleQuote_clean[OF assms(7)]
    SingleQuote_clean[OF assms(8)]
  by (simp add: update_text_def fill replace_from_clean_end)




subsection \<open>The primary key\<close>

lemma update_keeps_names:
  assumes "\<And>r. lock_name (f r) = lock_name r"
  shows "map lock_name (rows (snd (ExecContext (Update f w) db))) = map lock_name (rows db)"
  by (simp add: comp_def if_distrib assms cong: if_cong)

lemma insert_keeps_distinct:
  "distinct (map lock_name (rows db)) \<Longrightarrow>
   distinct (map lock_name (rows (snd (ExecContext (Insert r) db))))"
  by (auto simp: image_iff)

lemma sl_insert_distinct:
  assumes "distinct (map lock_name (rows db))"
  shows "distinct (map lock_name (rows (snd (sl_insert p now l db))))"
proof -
  let ?r = "\<lparr>lock_name = Name l, lock_until = Until l, locked_at = now,
             locked_by = Hostname p, token_value = Token l, meta_value = Meta l,
             locked_pid = ProcPid p\<rparr>"
  have "snd (sl_insert p now l db) = snd (ExecContext (Insert ?r) db)"
    by (simp add: sl_insert_def split: prod.splits sum.splits)
  then show ?thesis using insert_keeps_distinct[OF assms, of ?r] by simp
qed

lemma sl_update_names:
  "map lock_name (rows (snd (sl_update p now l db))) = map lock_name (rows db)"
  unfolding sl_update_def
  using update_keeps_names[of "\<lambda>r. r\<lparr>lock_until := Until l, locked_at := now,
      locked_by := Hostname p, token_value := Token l, meta_value := Meta l,
      locked_pid := ProcPid p\<rparr>" "\<lambda>r. lock_name r = Name l \<and> lock_until r \<le> Until l" db]
  by (simp split: prod.splits sum.splits)

lemma sl_extend_names: "map lock_name (rows (snd (sl_extend l db))) = map lock_name (rows db)"
  unfolding sl_extend_def
  using update_keeps_names[of "\<lambda>r. r\<lparr>lock_until := Until l\<rparr>"
      "\<lambda>r. lock_name r = Name l \<and> token_value r = Token l" db]
  by (simp split: prod.splits sum.splits)

lemma sl_unlock_names:
  "map lock_name (rows (snd (sl_unlock now l db))) = map lock_name (rows db)"
  unfolding sl_unlock_def Let_def
  using update_keeps_names[of "\<lambda>r. r\<lparr>lock_until := now - second\<rparr>"
      "\<lambda>r. lock_name r = Name l \<and> token_value r = Token l" db]
  by (simp split: prod.splits sum.splits)

lemma rd_step_distinct:
  assumes "distinct (map lock_name (rows db))"
  shows "distinct (map lock_name (rows (rd_step p now call db)))"
proof (cases call)
  case (CallObtain cl key token meta lockUntil)
  let ?sh = "\<lparr>Table = ClientTable cl, Name = key, At = 0, Until = lockUntil, By = [],
              Token = token, Meta = meta, Pid = []\<rparr>"
  obtain b db' where ins: "sl_insert p now ?sh db = (b, db')" by (cases "sl_insert p now ?sh db")
  have d': "distinct (map lock_name (rows db'))"
    using sl_insert_distinct[OF assms, of p now ?sh] ins by simp
  show ?thesis
  proof (cases b)
    case True
    then show ?thesis using CallObtain ins d' by (simp add: rd_obtain_def)
  next
    case False
    then show ?thesis
      using CallObtain ins d' sl_update_names[of p now ?sh db'] by (simp add: rd_obtain_def)
  qed
next
  case (CallRefresh l ttl)
  have "snd (rd_Refresh now l ttl db) = snd (sl_extend (handle_shedLock l (now + ttl)) db)"
    by (simp add: rd_Refresh_def split: prod.splits sum.splits bool.splits)
  then show ?thesis
    using CallRefresh assms sl_extend_names[of "handle_shedLock l (now + ttl)" db] by simp
next
  case (CallRelease l)
  have "snd (rd_Release now l db) = snd (sl_unlock now (handle_shedLock l 0) db)"
    by (simp add: rd_Release_def split: prod.splits sum.splits bool.splits)
  then show ?thesis
    using CallRelease assms sl_unlock_names[of now "handle_shedLock l 0" db] by simp
next
  case (CallTTL l)
  then show ?thesis using assms by simp
qed

lemma distinct_one_row:
  "distinct (map lock_name xs) \<Longrightarrow> length (filter (\<lambda>r. lock_name r = key \<and> P r) xs) \<le> 1"
proof (induction xs)
  case Nil
  then show ?case by simp
next
  case (Cons x xs)
  show ?case
  proof (cases "lock_name x = key")
    case True
    have "lock_name x \<notin> lock_name ` set xs" using Cons.prems by simp
    then have "\<forall>r \<in> set xs. lock_name r \<noteq> key" using True by (metis imageI)
    then have "filter (\<lambda>r. lock_name r = key \<and> P r) xs = []"
      by (simp add: filter_empty_conv)
    then show ?thesis by simp
  next
    case False
    then show ?thesis using Cons by simp
  qed
qed

section \<open>Properties\<close>

text \<open>
  C1 (the code departs from it). The claim: the fallback UPDATE of the relational
  obtain claims a row only when its lease has expired, so the loser of an INSERT race
  is told that the lock was not obtained. The statement of \<^verbatim>\<open>shedLock.update\<close> compares
  the row's \<open>lock_until\<close> with the caller's own new \<open>lock_until\<close>, not with the current
  time: at instant 50 a caller asking for a lease until 150 takes over the row that
  another token holds until 100. The text it sends ends in
  \<^verbatim>\<open>lock_until <= 'T150'\<close> when instants are rendered as \<open>T\<close> and three digits.
\<close>

theorem rd_obtain_takes_live_row:
  "rd_obtain \<lparr>Hostname = ''h'', ProcPid = ''7''\<rparr> 50 \<lparr>ClientTable = ''shedlock''\<rparr>
       ''k3'' ''B'' [] 150
       \<lparr>rows = [\<lparr>lock_name = ''k3'', lock_until = 100, locked_at = 0, locked_by = ''h'',
                  token_value = ''A'', meta_value = [], locked_pid = ''3''\<rparr>],
        down = False\<rparr>
   = (Inr True,
      \<lparr>rows = [\<lparr>lock_name = ''k3'', lock_until = 150, locked_at = 50, locked_by = ''h'',
                  token_value = ''B'', meta_value = [], locked_pid = ''7''\<rparr>],
       down = False\<rparr>)
   \<and> fst (update_text \<lparr>Hostname = ''h'', ProcPid = ''7''\<rparr>
            (\<lambda>t. if t = 150 then ''T150'' else ''T050'') 50
            \<lparr>Table = ''shedlock'', Name = ''k3'', At = 0, Until = 150, By = [],
             Token = ''B'', Meta = [], Pid = []\<rparr>)
     = ''UPDATE shedlock SET lock_until = '' @ [quote] @ ''T150'' @ [quote]
       @ '', locked_at = '' @ [quote] @ ''T050'' @ [quote]
       @ '', locked_by = '' @ [quote] @ ''h'' @ [quote]
       @ '', token_value = '' @ [quote] @ ''B'' @ [quote]
       @ '', meta_value = '' @ [quote, quote]
       @ '', locked_pid = '' @ [quote] @ ''7'' @ [quote]
       @ '' WHERE lock_name = '' @ [quote] @ ''k3'' @ [quote]
       @ '' AND lock_until <= '' @ [quote] @ ''T150'' @ [quote]"
proof -
  have "rd_obtain \<lparr>Hostname = ''h'', ProcPid = ''7''\<rparr> 50 \<lparr>ClientTable = ''shedlock''\<rparr>
       ''k3'' ''B'' [] 150
       \<lparr>rows = [\<lparr>lock_name = ''k3'', lock_until = 100, locked_at = 0, locked_by = ''h'',
                  token_value = ''A'', meta_value = [], locked_pid = ''3''\<rparr>],
        down = False\<rparr>
   = (Inr True,
      \<lparr>rows = [\<lparr>lock_name = ''k3'', lock_until = 150, locked_at = 50, locked_by = ''h'',
                  token_value = ''B'', meta_value = [], locked_pid = ''7''\<rparr>],
       down = False\<rparr>)"
    by (simp add: rd_obtain_def sl_insert_def sl_update_def)
  then show ?thesis
    by (simp add: update_text_shape SingleQuote_eq quote_def escape_def)
qed

text \<open>
  C2 (as amended). Every key has at most one lock record: in the table the values of
  \<open>lock_name\<close> stay distinct through every call (obtain, Refresh, Release, TTL), so at
  any instant at most one row of a key is live; in the key-value store a key holds one
  value. An obtain of the key-value backend succeeds only if the key is absent or
  expired or the stored value begins with the caller's token; hence, when the tokens of
  the callers have the same length, an obtain whose token differs from that of the live
  record fails and leaves the store as it was.
\<close>

theorem one_record_per_key:
  "(distinct (map lock_name (rows db)) \<longrightarrow>
      distinct (map lock_name (rows (rd_step p now call db)))
    \<and> length (live_rows t key (rd_step p now call db)) \<le> 1)
   \<and> (tok \<noteq> [] \<and> kv_obtain now key (tok @ meta) (length tok) px kv = (Inr True, kv') \<longrightarrow>
      GET now kv key = None
      \<or> (\<exists>stored. GET now kv key = Some stored \<and> take (length tok) stored = tok))
   \<and> (GET now kv key = Some (tok1 @ meta1) \<and> length tok1 = length tok \<and> tok1 \<noteq> tok \<longrightarrow>
      fst (kv_obtain now key (tok @ meta) (length tok) px kv) \<noteq> Inr True
    \<and> snd (kv_obtain now key (tok @ meta) (length tok) px kv) = kv)"
proof -
  have a: "distinct (map lock_name (rows db)) \<longrightarrow>
      distinct (map lock_name (rows (rd_step p now call db)))
    \<and> length (live_rows t key (rd_step p now call db)) \<le> 1"
    using rd_step_distinct[of db p now call]
      distinct_one_row[of "rows (rd_step p now call db)" key "\<lambda>r. t < lock_until r"]
    by (simp add: live_rows_def)
  have b: "tok \<noteq> [] \<and> kv_obtain now key (tok @ meta) (length tok) px kv = (Inr True, kv') \<longrightarrow>
      GET now kv key = None
      \<or> (\<exists>stored. GET now kv key = Some stored \<and> take (length tok) stored = tok)"
  proof (intro impI, elim conjE)
    assume ne: "tok \<noteq> []"
      and ok: "kv_obtain now key (tok @ meta) (length tok) px kv = (Inr True, kv')"
    show "GET now kv key = None
      \<or> (\<exists>stored. GET now kv key = Some stored \<and> take (length tok) stored = tok)"
    proof (cases "GET now kv key")
      case None
      then show ?thesis by simp
    next
      case (Some stored)
      have len: "0 < length tok" using ne by simp
      have "take (length tok) stored = tok"
      proof (rule ccontr)
        assume "take (length tok) stored \<noteq> tok"
        then have "fst (kv_obtain now key (tok @ meta) (length tok) px kv) \<noteq> Inr True"
          using Some len
          by (auto simp: kv_obtain_def Run_def luaObtain_def SET_NX_PX_def GET_def
              getrange_prefix string_sub_prefix Let_def split: option.splits)
        then show False using ok by simp
      qed
      then show ?thesis using Some by simp
    qed
  qed
  have c: "GET now kv key = Some (tok1 @ meta1) \<and> length tok1 = length tok \<and> tok1 \<noteq> tok \<longrightarrow>
      fst (kv_obtain now key (tok @ meta) (length tok) px kv) \<noteq> Inr True
    \<and> snd (kv_obtain now key (tok @ meta) (length tok) px kv) = kv"
  proof (intro impI, elim conjE)
    assume g: "GET now kv key = Some (tok1 @ meta1)" and l: "length tok1 = length tok"
      and d: "tok1 \<noteq> tok"
    have len: "0 < length tok" using l d by (cases tok) auto
    have "take (length tok) (tok1 @ meta1) \<noteq> tok" using l d by simp
    then show "fst (kv_obtain now key (tok @ meta) (length tok) px kv) \<noteq> Inr True
      \<and> snd (kv_obtain now key (tok @ meta) (length tok) px kv) = kv"
      using g len
      by (auto simp: kv_obtain_def Run_def luaObtain_def SET_NX_PX_def GET_def
          getrange_prefix string_sub_prefix Let_def split: option.splits)
  qed
  show ?thesis using a b c by blast
qed

theorem one_record_per_key_witness:
  "distinct (map lock_name (rows (rd_step \<lparr>Hostname = ''h'', ProcPid = ''7''\<rparr> 50
       (CallRelease \<lparr>rd_Client = \<lparr>ClientTable = ''shedlock''\<rparr>, rd_Key = ''k3'',
                     rd_token = ''A'', rd_metadata = [], rd_Until = 100\<rparr>)
       \<lparr>rows = [\<lparr>lock_name = ''k3'', lock_until = 100, locked_at = 0, locked_by = ''h'',
                  token_value = ''A'', meta_value = [], locked_pid = ''3''\<rparr>],
        down = False\<rparr>)))
   \<and> (GET 10 \<lparr>keys = [''k2'' \<mapsto> (''A'' @ ''x'', 1000)], redis_down = False\<rparr> ''k2'' = None
        \<or> (\<exists>stored. GET 10 \<lparr>keys = [''k2'' \<mapsto> (''A'' @ ''x'', 1000)], redis_down = False\<rparr> ''k2''
                = Some stored \<and> take (length ''A'') stored = ''A''))
   \<and> fst (kv_obtain 10 ''k2'' (''B'' @ ''y'') (length ''B'') 2000
         \<lparr>keys = [''k2'' \<mapsto> (''A'' @ ''x'', 1000)], redis_down = False\<rparr>) \<noteq> Inr True"
proof -
  have a: "distinct (map lock_name (rows
       \<lparr>rows = [\<lparr>lock_name = ''k3'', lock_until = 100, locked_at = 0, locked_by = ''h'',
                  token_value = ''A'', meta_value = [], locked_pid = ''3''\<rparr>],
        down = False\<rparr>))"
    by simp
  have b: "''A'' \<noteq> [] \<and> kv_obtain 10 ''k2'' (''A'' @ ''z'') (length ''A'') 2000
         \<lparr>keys = [''k2'' \<mapsto> (''A'' @ ''x'', 1000)], redis_down = False\<rparr>
       = (Inr True, \<lparr>keys = [''k2'' \<mapsto> (''A'' @ ''z'', 2010)], redis_down = False\<rparr>)"
    by (simp add: kv_obtain_def Run_def luaObtain_def SET_NX_PX_def SET_PX_def lookup_def
        GETRANGE_def GET_def string_sub_def Let_def)
  have c: "GET 10 \<lparr>keys = [''k2'' \<mapsto> (''A'' @ ''x'', 1000)], redis_down = False\<rparr> ''k2''
        = Some (''A'' @ ''x'') \<and> length ''A'' = length ''B'' \<and> ''A'' \<noteq> ''B''"
    by (simp add: GET_def lookup_def)
  show ?thesis
    using one_record_per_key[THEN conjunct1, THEN mp, OF a]
      one_record_per_key[THEN conjunct2, THEN conjunct1, THEN mp, OF b]
      one_record_per_key[THEN conjunct2, THEN conjunct2, THEN mp, OF c]
    by blast
qed

text \<open>
  The claim as stated fails in the key-value backend when tokens differ in length: the
  token \<open>ab\<close> obtains the key that the token \<open>abcd\<close> obtained ten milliseconds earlier for
  a full second.
\<close>

theorem prefix_token_obtains_live_key:
  "kv_obtain 0 ''k'' ''abcd'' 4 1000 \<lparr>keys = Map.empty, redis_down = False\<rparr>
     = (Inr True, \<lparr>keys = [''k'' \<mapsto> (''abcd'', 1000)], redis_down = False\<rparr>)
   \<and> kv_obtain 10 ''k'' ''ab'' 2 1000
       \<lparr>keys = [''k'' \<mapsto> (''abcd'', 1000)], redis_down = False\<rparr>
     = (Inr True, \<lparr>keys = [''k'' \<mapsto> (''ab'', 1010)], redis_down = False\<rparr>)"
  by (simp add: kv_obtain_def Run_def luaObtain_def SET_NX_PX_def SET_PX_def lookup_def
      GETRANGE_def GET_def string_sub_def Let_def)

text \<open>
  C3. The obtain script of the key-value backend, as \<^verbatim>\<open>Client.Obtain\<close> calls it (a token
  that is not empty, the value \<open>token @ meta\<close>, a TTL of at least one millisecond, a store
  that answers). If the key is absent the value is stored with the TTL and the call
  succeeds; if the key is present and the first \<open>length token\<close> bytes of the stored value
  are the token, value and TTL are overwritten and the call succeeds, so the same owner
  gets the new TTL and the new metadata; otherwise the call fails and the store is as
  before.
\<close>

theorem kv_obtain_script_cases:
  assumes "0 < ttlVal" and "token \<noteq> []" and "\<not> redis_down kv"
  shows "(GET now kv key = None \<longrightarrow>
           kv_obtain now key (token @ meta) (length token) ttlVal kv
             = (Inr True, kv\<lparr>keys := (keys kv)(key \<mapsto> (token @ meta, now + ttlVal))\<rparr>))
       \<and> (\<forall>stored. GET now kv key = Some stored \<and> take (length token) stored = token \<longrightarrow>
           kv_obtain now key (token @ meta) (length token) ttlVal kv
             = (Inr True, kv\<lparr>keys := (keys kv)(key \<mapsto> (token @ meta, now + ttlVal))\<rparr>))
       \<and> (\<forall>stored. GET now kv key = Some stored \<and> take (length token) stored \<noteq> token \<longrightarrow>
           kv_obtain now key (token @ meta) (length token) ttlVal kv = (Inr False, kv))"
proof -
  have len: "0 < length token" using assms(2) by simp
  show ?thesis
    using assms len
    by (auto simp: kv_obtain_def Run_def luaObtain_def SET_NX_PX_def SET_PX_def GET_def
        getrange_prefix string_sub_prefix Let_def split: option.splits)
qed

theorem kv_obtain_script_cases_witness:
  "kv_obtain 10 ''k2'' (''A'' @ ''x'') (length ''A'') 2000
      \<lparr>keys = Map.empty, redis_down = False\<rparr>
     = (Inr True, \<lparr>keys = [''k2'' \<mapsto> (''Ax'', 2010)], redis_down = False\<rparr>)
   \<and> kv_obtain 10 ''k2'' (''A'' @ ''y'') (length ''A'') 2000
      \<lparr>keys = [''k2'' \<mapsto> (''Ax'', 1000)], redis_down = False\<rparr>
     = (Inr True, \<lparr>keys = [''k2'' \<mapsto> (''Ay'', 2010)], redis_down = False\<rparr>)
   \<and> kv_obtain 10 ''k2'' (''B'' @ ''y'') (length ''B'') 2000
      \<lparr>keys = [''k2'' \<mapsto> (''Ax'', 1000)], redis_down = False\<rparr>
     = (Inr False, \<lparr>keys = [''k2'' \<mapsto> (''Ax'', 1000)], redis_down = False\<rparr>)"
  using kv_obtain_script_cases[of 2000 "''A''" "\<lparr>keys = Map.empty, redis_down = False\<rparr>"
          10 "''k2''" "''x''"]
        kv_obtain_script_cases[of 2000 "''A''"
          "\<lparr>keys = [''k2'' \<mapsto> (''Ax'', 1000)], redis_down = False\<rparr>" 10 "''k2''" "''y''"]
        kv_obtain_script_cases[of 2000 "''B''"
          "\<lparr>keys = [''k2'' \<mapsto> (''Ax'', 1000)], redis_down = False\<rparr>" 10 "''k2''" "''y''"]
  by (simp add: GET_def lookup_def)






text \<open>
  C6. When the context is done before the ticker fires, that is while the loop sleeps
  between two attempts (or before the sleep starts), Obtain returns the context's error,
  \<^verbatim>\<open>context.Canceled\<close> or \<^verbatim>\<open>context.DeadlineExceeded\<close>, at that instant. ErrNotObtained is
  returned by either backend's Obtain only when the last backoff drawn from the strategy
  was below one, never because a sleep was cut short.
\<close>

theorem cancelled_sleep_gives_context_error:
  "(att now s = (Inr False, s') \<and> 1 \<le> retry n \<and> done_at dl cancel < now + retry n \<longrightarrow>
      acquire att h retry pick dl cancel now n s
        = \<lparr>returned_at = max now (done_at dl cancel), attempts = Suc n,
           result = Inl (ctx_Err dl cancel), store = s'\<rparr>)
   \<and> (ctx_Err dl cancel = Canceled \<or> ctx_Err dl cancel = DeadlineExceeded)
   \<and> (result (rd_Obtain p rnd pick c now cl key ttl opt db) = Inl ErrNotObtained \<longrightarrow>
        GetRetryStrategy opt (attempts (rd_Obtain p rnd pick c now cl key ttl opt db) - 1) < 1)
   \<and> (result (kv_Obtain rnd pick c now key ttl kopt kv) = Inl ErrNotObtained \<longrightarrow>
        GetRetryStrategy (or_default kopt)
          (attempts (kv_Obtain rnd pick c now key ttl kopt kv) - 1) < 1)"
proof -
  have a: "att now s = (Inr False, s') \<and> 1 \<le> retry n \<and> done_at dl cancel < now + retry n \<longrightarrow>
      acquire att h retry pick dl cancel now n s
        = \<lparr>returned_at = max now (done_at dl cancel), attempts = Suc n,
           result = Inl (ctx_Err dl cancel), store = s'\<rparr>"
    by (auto intro!: acquire_done)
  have c: "result (rd_Obtain p rnd pick c now cl key ttl opt db) = Inl ErrNotObtained \<longrightarrow>
        GetRetryStrategy opt (attempts (rd_Obtain p rnd pick c now cl key ttl opt db) - 1) < 1"
  proof (cases "choose_token opt rnd")
    case (Inl e)
    then have "e = RandFailure"
      by (auto simp: choose_token_def split: if_splits option.splits)
    then show ?thesis using Inl by (simp add: rd_Obtain_def)
  next
    case (Inr token)
    show ?thesis
      unfolding rd_Obtain_def Let_def Inr sum.case
      by (rule impI, rule acquire_not_obtained) (simp_all add: rd_obtain_error)
  qed
  have d: "result (kv_Obtain rnd pick c now key ttl kopt kv) = Inl ErrNotObtained \<longrightarrow>
        GetRetryStrategy (or_default kopt)
          (attempts (kv_Obtain rnd pick c now key ttl kopt kv) - 1) < 1"
  proof (cases "choose_token (or_default kopt) rnd")
    case (Inl e)
    then have "e = RandFailure"
      by (auto simp: choose_token_def split: if_splits option.splits)
    then show ?thesis using Inl by (simp add: kv_Obtain_def)
  next
    case (Inr token)
    show ?thesis
      unfolding kv_Obtain_def Let_def Inr sum.case
      by (rule impI, rule acquire_not_obtained) (simp_all add: kv_obtain_error)
  qed
  show ?thesis using a c d ctx_Err_cases by blast
qed

theorem cancelled_sleep_gives_context_error_witness:
  "kv_Obtain None (\<lambda>_. False) \<lparr>Deadline = Some 5000000, cancel_at = Some 3000000\<rparr> 0 ''k''
      1000000000 (Some \<lparr>RetryStrategy = Some (\<lambda>_. 4000000), OptMeta = ''m'', OptToken = ''B''\<rparr>)
      \<lparr>keys = [''k'' \<mapsto> (''Ax'', 100)], redis_down = False\<rparr>
   = \<lparr>returned_at = 3000000, attempts = 1, result = Inl Canceled,
      store = \<lparr>keys = [''k'' \<mapsto> (''Ax'', 100)], redis_down = False\<rparr>\<rparr>
   \<and> GetRetryStrategy \<lparr>RetryStrategy = Some (\<lambda>n. 4000000 - int n * 4000000), OptMeta = [],
                         OptToken = ''B''\<rparr>
        (attempts (rd_Obtain \<lparr>Hostname = ''h'', ProcPid = ''7''\<rparr> None (\<lambda>_. False)
           \<lparr>Deadline = None, cancel_at = None\<rparr> 0 \<lparr>ClientTable = []\<rparr> ''k'' 10000000
           \<lparr>RetryStrategy = Some (\<lambda>n. 4000000 - int n * 4000000), OptMeta = [],
            OptToken = ''B''\<rparr>
           \<lparr>rows = [\<lparr>lock_name = ''k'', lock_until = 90000000, locked_at = 0,
                      locked_by = ''h'', token_value = ''A'', meta_value = [],
                      locked_pid = ''3''\<rparr>], down = False\<rparr>) - 1) < 1"
proof -
  let ?db = "\<lparr>rows = [\<lparr>lock_name = ''k'', lock_until = 90000000, locked_at = 0,
                      locked_by = ''h'', token_value = ''A'', meta_value = [],
                      locked_pid = ''3''\<rparr>], down = False\<rparr>"
  let ?att = "\<lambda>t. rd_obtain \<lparr>Hostname = ''h'', ProcPid = ''7''\<rparr> t \<lparr>ClientTable = ''shedlock''\<rparr>
                 ''k'' ''B'' [] 10000000"
  have busy: "?att t ?db = (Inr False, ?db)" for t
    by (simp add: rd_obtain_def sl_insert_def sl_update_def)
  have "result (rd_Obtain \<lparr>Hostname = ''h'', ProcPid = ''7''\<rparr> None (\<lambda>_. False)
           \<lparr>Deadline = None, cancel_at = None\<rparr> 0 \<lparr>ClientTable = []\<rparr> ''k'' 10000000
           \<lparr>RetryStrategy = Some (\<lambda>n. 4000000 - int n * 4000000), OptMeta = [],
            OptToken = ''B''\<rparr> ?db) = Inl ErrNotObtained"
    by (simp add: rd_Obtain_def choose_token_def GetRetryStrategy_def default_table_def
        Let_def done_at_def
        acquire_tick[where att = ?att and now = 0 and n = 0, OF busy]
        acquire_stop[where att = ?att and now = 4000000 and n = "Suc 0", OF busy])
  from cancelled_sleep_gives_context_error[THEN conjunct2, THEN conjunct2, THEN conjunct1,
      THEN mp, OF this]
  have second: "GetRetryStrategy \<lparr>RetryStrategy = Some (\<lambda>n. 4000000 - int n * 4000000),
                         OptMeta = [], OptToken = ''B''\<rparr>
        (attempts (rd_Obtain \<lparr>Hostname = ''h'', ProcPid = ''7''\<rparr> None (\<lambda>_. False)
           \<lparr>Deadline = None, cancel_at = None\<rparr> 0 \<lparr>ClientTable = []\<rparr> ''k'' 10000000
           \<lparr>RetryStrategy = Some (\<lambda>n. 4000000 - int n * 4000000), OptMeta = [],
            OptToken = ''B''\<rparr> ?db) - 1) < 1" .
  have first: "kv_Obtain None (\<lambda>_. False) \<lparr>Deadline = Some 5000000, cancel_at = Some 3000000\<rparr>
      0 ''k'' 1000000000
      (Some \<lparr>RetryStrategy = Some (\<lambda>_. 4000000), OptMeta = ''m'', OptToken = ''B''\<rparr>)
      \<lparr>keys = [''k'' \<mapsto> (''Ax'', 100)], redis_down = False\<rparr>
   = \<lparr>returned_at = 3000000, attempts = 1, result = Inl Canceled,
      store = \<lparr>keys = [''k'' \<mapsto> (''Ax'', 100)], redis_down = False\<rparr>\<rparr>"
    using cancelled_sleep_gives_context_error[where
      att = "\<lambda>t. kv_obtain (t div millisecond) ''k'' (''B'' @ ''m'') (length ''B'')
                  (1000000000 sdiv millisecond)"
      and now = 0 and n = 0 and retry = "\<lambda>_. 4000000" and dl = 5000000
      and cancel = "Some 3000000"
      and s = "\<lparr>keys = [''k'' \<mapsto> (''Ax'', 100)], redis_down = False\<rparr>"
      and s' = "\<lparr>keys = [''k'' \<mapsto> (''Ax'', 100)], redis_down = False\<rparr>"
      and pick = "\<lambda>_. False"
      and h = "\<lparr>kv_Key = ''k'', kv_value = ''B'' @ ''m'', kv_tokenLen = length ''B''\<rparr>",
      THEN conjunct1]
    by (simp add: kv_Obtain_def or_default_def choose_token_def GetRetryStrategy_def Let_def
      kv_obtain_def Run_def luaObtain_def SET_NX_PX_def lookup_def GETRANGE_def GET_def
      string_sub_def millisecond_def signed_divide_int_def done_at_def ctx_Err_def)
  show ?thesis using first second by blast
qed

text \<open>
  C7. Without a deadline on the caller's context Obtain runs its loop under the deadline
  \<open>now + ttl\<close> and, for a TTL that is not negative, returns no later than that; with a
  deadline \<open>d\<close> on the caller's context that has not passed when Obtain starts, it returns
  no later than \<open>d\<close>. Backend calls take no time in this model; time passes in the sleeps.
\<close>

theorem Obtain_returns_by_deadline:
  "(Deadline c = None \<and> 0 \<le> ttl \<longrightarrow>
      returned_at (rd_Obtain p rnd pick c now cl key ttl opt db) \<le> now + ttl
    \<and> returned_at (kv_Obtain rnd pick c now key ttl kopt kv) \<le> now + ttl)
   \<and> (\<forall>d. Deadline c = Some d \<and> now \<le> d \<longrightarrow>
      returned_at (rd_Obtain p rnd pick c now cl key ttl opt db) \<le> d
    \<and> returned_at (kv_Obtain rnd pick c now key ttl kopt kv) \<le> d)"
  by (auto simp: rd_Obtain_def kv_Obtain_def Let_def acquire_returned_le split: sum.splits)

theorem Obtain_returns_by_deadline_witness:
  "returned_at (rd_Obtain \<lparr>Hostname = ''h'', ProcPid = ''7''\<rparr> (Some ''R'') (\<lambda>_. True)
       \<lparr>Deadline = None, cancel_at = None\<rparr> 50 \<lparr>ClientTable = []\<rparr> ''k'' 100
       \<lparr>RetryStrategy = Some (\<lambda>_. 30), OptMeta = ''m'', OptToken = []\<rparr>
       \<lparr>rows = [\<lparr>lock_name = ''k'', lock_until = 900, locked_at = 0, locked_by = ''h'',
                  token_value = ''A'', meta_value = [], locked_pid = ''3''\<rparr>], down = False\<rparr>)
     \<le> 50 + 100
   \<and> returned_at (kv_Obtain (Some ''R'') (\<lambda>_. True) \<lparr>Deadline = Some 70, cancel_at = None\<rparr>
       50 ''k'' 100 None \<lparr>keys = Map.empty, redis_down = False\<rparr>)
     \<le> 70"
  using Obtain_returns_by_deadline[where c = "\<lparr>Deadline = None, cancel_at = None\<rparr>"
      and ttl = 100 and now = 50 and p = "\<lparr>Hostname = ''h'', ProcPid = ''7''\<rparr>"
      and rnd = "Some ''R''" and pick = "\<lambda>_. True" and cl = "\<lparr>ClientTable = []\<rparr>"
      and key = "''k''"
      and opt = "\<lparr>RetryStrategy = Some (\<lambda>_. 30), OptMeta = ''m'', OptToken = []\<rparr>"
      and db = "\<lparr>rows = [\<lparr>lock_name = ''k'', lock_until = 900, locked_at = 0,
                  locked_by = ''h'', token_value = ''A'', meta_value = [],
                  locked_pid = ''3''\<rparr>], down = False\<rparr>"]
    Obtain_returns_by_deadline[where c = "\<lparr>Deadline = Some 70, cancel_at = None\<rparr>"
      and ttl = 100 and now = 50 and rnd = "Some ''R''" and pick = "\<lambda>_. True"
      and key = "''k''" and kopt = None
      and kv = "\<lparr>keys = Map.empty, redis_down = False\<rparr>"]
  by simp

text \<open>
  C8. With no RetryStrategy in the options the strategy is \<open>NoRetry\<close>: Obtain of either
  backend calls \<^verbatim>\<open>obtain\<close> exactly once (it has a token), returns at the instant it
  started, so without sleeping, and returns ErrNotObtained when that one call found the
  lock busy. For any strategy, a backoff below one after a busy attempt ends the loop
  with ErrNotObtained at once.
\<close>

theorem default_strategy_single_attempt:
  "(RetryStrategy opt = None \<and> choose_token opt rnd = Inr token \<longrightarrow>
      attempts (rd_Obtain p rnd pick c now cl key ttl opt db) = 1
    \<and> returned_at (rd_Obtain p rnd pick c now cl key ttl opt db) = now
    \<and> (fst (rd_obtain p now (default_table cl) key token (OptMeta opt) (now + ttl) db)
          = Inr False \<longrightarrow>
        result (rd_Obtain p rnd pick c now cl key ttl opt db) = Inl ErrNotObtained))
   \<and> (RetryStrategy (or_default kopt) = None
        \<and> choose_token (or_default kopt) rnd = Inr token \<longrightarrow>
      attempts (kv_Obtain rnd pick c now key ttl kopt kv) = 1
    \<and> returned_at (kv_Obtain rnd pick c now key ttl kopt kv) = now
    \<and> (fst (kv_obtain (now div millisecond) key (token @ OptMeta (or_default kopt))
               (length token) (ttl sdiv millisecond) kv) = Inr False \<longrightarrow>
        result (kv_Obtain rnd pick c now key ttl kopt kv) = Inl ErrNotObtained))
   \<and> (att now s = (Inr False, s') \<and> retry n < 1 \<longrightarrow>
      acquire att h retry pick dl cancel now n s
        = \<lparr>returned_at = now, attempts = Suc n, result = Inl ErrNotObtained, store = s'\<rparr>)"
proof -
  have stop: "GetRetryStrategy x 0 < 1" if "RetryStrategy x = None" for x
    using that by (simp add: GetRetryStrategy_def NoRetry_def)
  have rd: "RetryStrategy opt = None \<and> choose_token opt rnd = Inr token \<longrightarrow>
      attempts (rd_Obtain p rnd pick c now cl key ttl opt db) = 1
    \<and> returned_at (rd_Obtain p rnd pick c now cl key ttl opt db) = now
    \<and> (fst (rd_obtain p now (default_table cl) key token (OptMeta opt) (now + ttl) db)
          = Inr False \<longrightarrow>
        result (rd_Obtain p rnd pick c now cl key ttl opt db) = Inl ErrNotObtained)"
  proof (intro impI, elim conjE)
    assume none: "RetryStrategy opt = None" and tok: "choose_token opt rnd = Inr token"
    have lt: "GetRetryStrategy opt 0 < 1" using none by (rule stop)
    show "attempts (rd_Obtain p rnd pick c now cl key ttl opt db) = 1
      \<and> returned_at (rd_Obtain p rnd pick c now cl key ttl opt db) = now
      \<and> (fst (rd_obtain p now (default_table cl) key token (OptMeta opt) (now + ttl) db)
            = Inr False \<longrightarrow>
          result (rd_Obtain p rnd pick c now cl key ttl opt db) = Inl ErrNotObtained)"
      using acquire_stop_now[where retry = "GetRetryStrategy opt" and n = 0
          and att = "\<lambda>t. rd_obtain p t (default_table cl) key token (OptMeta opt) (now + ttl)"
          and now = now and s = db
          and h = "\<lparr>rd_Client = default_table cl, rd_Key = key, rd_token = token,
                   rd_metadata = OptMeta opt, rd_Until = now + ttl\<rparr>", OF lt] tok
      by (simp add: rd_Obtain_def Let_def)
  qed
  have kv: "RetryStrategy (or_default kopt) = None
        \<and> choose_token (or_default kopt) rnd = Inr token \<longrightarrow>
      attempts (kv_Obtain rnd pick c now key ttl kopt kv) = 1
    \<and> returned_at (kv_Obtain rnd pick c now key ttl kopt kv) = now
    \<and> (fst (kv_obtain (now div millisecond) key (token @ OptMeta (or_default kopt))
               (length token) (ttl sdiv millisecond) kv) = Inr False \<longrightarrow>
        result (kv_Obtain rnd pick c now key ttl kopt kv) = Inl ErrNotObtained)"
  proof (intro impI, elim conjE)
    assume none: "RetryStrategy (or_default kopt) = None"
      and tok: "choose_token (or_default kopt) rnd = Inr token"
    have lt: "GetRetryStrategy (or_default kopt) 0 < 1" using none by (rule stop)
    show "attempts (kv_Obtain rnd pick c now key ttl kopt kv) = 1
      \<and> returned_at (kv_Obtain rnd pick c now key ttl kopt kv) = now
      \<and> (fst (kv_obtain (now div millisecond) key (token @ OptMeta (or_default kopt))
                 (length token) (ttl sdiv millisecond) kv) = Inr False \<longrightarrow>
          result (kv_Obtain rnd pick c now key ttl kopt kv) = Inl ErrNotObtained)"
      using acquire_stop_now[where retry = "GetRetryStrategy (or_default kopt)" and n = 0
          and att = "\<lambda>t. kv_obtain (t div millisecond) key
              (token @ OptMeta (or_default kopt)) (length token) (ttl sdiv millisecond)"
          and now = now and s = kv
          and h = "\<lparr>kv_Key = key, kv_value = token @ OptMeta (or_default kopt),
                   kv_tokenLen = length token\<rparr>", OF lt] tok
      by (simp add: kv_Obtain_def Let_def)
  qed
  have gen: "att now s = (Inr False, s') \<and> retry n < 1 \<longrightarrow>
      acquire att h retry pick dl cancel now n s
        = \<lparr>returned_at = now, attempts = Suc n, result = Inl ErrNotObtained, store = s'\<rparr>"
    by (simp add: acquire_stop)
  show ?thesis using rd kv gen by blast
qed

theorem default_strategy_single_attempt_witness:
  "attempts (kv_Obtain (Some ''R'') (\<lambda>_. False) \<lparr>Deadline = None, cancel_at = None\<rparr> 0 ''k''
      1000000000 None \<lparr>keys = [''k'' \<mapsto> (''Ax'', 100)], redis_down = False\<rparr>) = 1
   \<and> returned_at (kv_Obtain (Some ''R'') (\<lambda>_. False) \<lparr>Deadline = None, cancel_at = None\<rparr> 0
      ''k'' 1000000000 None \<lparr>keys = [''k'' \<mapsto> (''Ax'', 100)], redis_down = False\<rparr>) = 0
   \<and> result (kv_Obtain (Some ''R'') (\<lambda>_. False) \<lparr>Deadline = None, cancel_at = None\<rparr> 0 ''k''
      1000000000 None \<lparr>keys = [''k'' \<mapsto> (''Ax'', 100)], redis_down = False\<rparr>)
     = Inl ErrNotObtained
   \<and> attempts (rd_Obtain \<lparr>Hostname = ''h'', ProcPid = ''7''\<rparr> None (\<lambda>_. False)
       \<lparr>Deadline = None, cancel_at = None\<rparr> 0 \<lparr>ClientTable = []\<rparr> ''k'' 1000
       \<lparr>RetryStrategy = None, OptMeta = [], OptToken = ''B''\<rparr>
       \<lparr>rows = [\<lparr>lock_name = ''k'', lock_until = 9000, locked_at = 0, locked_by = ''h'',
                  token_value = ''A'', meta_value = [], locked_pid = ''3''\<rparr>],
        down = False\<rparr>) = 1
   \<and> result (rd_Obtain \<lparr>Hostname = ''h'', ProcPid = ''7''\<rparr> None (\<lambda>_. False)
       \<lparr>Deadline = None, cancel_at = None\<rparr> 0 \<lparr>ClientTable = []\<rparr> ''k'' 1000
       \<lparr>RetryStrategy = None, OptMeta = [], OptToken = ''B''\<rparr>
       \<lparr>rows = [\<lparr>lock_name = ''k'', lock_until = 9000, locked_at = 0, locked_by = ''h'',
                  token_value = ''A'', meta_value = [], locked_pid = ''3''\<rparr>],
        down = False\<rparr>) = Inl ErrNotObtained"
  using default_strategy_single_attempt[where kopt = None and rnd = "Some ''R''"
      and token = "''R''" and pick = "\<lambda>_. False"
      and c = "\<lparr>Deadline = None, cancel_at = None\<rparr>" and now = 0 and key = "''k''"
      and ttl = 1000000000
      and kv = "\<lparr>keys = [''k'' \<mapsto> (''Ax'', 100)], redis_down = False\<rparr>",
      THEN conjunct2, THEN conjunct1]
    default_strategy_single_attempt[where rnd = None
      and opt = "\<lparr>RetryStrategy = None, OptMeta = [], OptToken = ''B''\<rparr>"
      and token = "''B''" and pick = "\<lambda>_. False"
      and c = "\<lparr>Deadline = None, cancel_at = None\<rparr>" and now = 0 and key = "''k''"
      and ttl = 1000 and p = "\<lparr>Hostname = ''h'', ProcPid = ''7''\<rparr>"
      and cl = "\<lparr>ClientTable = []\<rparr>"
      and db = "\<lparr>rows = [\<lparr>lock_name = ''k'', lock_until = 9000, locked_at = 0,
                  locked_by = ''h'', token_value = ''A'', meta_value = [],
                  locked_pid = ''3''\<rparr>], down = False\<rparr>",
      THEN conjunct1]
  by (simp add: or_default_def choose_token_def kv_obtain_def Run_def luaObtain_def
      SET_NX_PX_def lookup_def GETRANGE_def GET_def string_sub_def millisecond_def
      signed_divide_int_def Let_def rd_obtain_def sl_insert_def sl_update_def
      default_table_def)

text \<open>
  C9. The handle that a successful Obtain returns gives back the metadata of the options,
  whatever string it is, and the token the call used (the caller's, or the random one
  when the caller gave none). In the key-value backend the value stored under the key
  when Obtain returns is the handle's token followed by its metadata.
\<close>

theorem handle_round_trip:
  "(result (rd_Obtain p rnd pick c now cl key ttl opt db) = Inr l \<longrightarrow>
      rd_Metadata l = OptMeta opt \<and> choose_token opt rnd = Inr (rd_Token l))
   \<and> (result (kv_Obtain rnd pick c now key ttl kopt kv) = Inr h \<longrightarrow>
      (\<exists>tok. choose_token (or_default kopt) rnd = Inr tok
           \<and> kv_Token h = Inr tok
           \<and> kv_Metadata h = Inr (OptMeta (or_default kopt))
           \<and> GET (returned_at (kv_Obtain rnd pick c now key ttl kopt kv) div millisecond)
                  (store (kv_Obtain rnd pick c now key ttl kopt kv)) key
               = Some (tok @ OptMeta (or_default kopt))))"
proof -
  have rd: "result (rd_Obtain p rnd pick c now cl key ttl opt db) = Inr l \<longrightarrow>
      rd_Metadata l = OptMeta opt \<and> choose_token opt rnd = Inr (rd_Token l)"
  proof (cases "choose_token opt rnd")
    case (Inl e)
    then show ?thesis by (simp add: rd_Obtain_def)
  next
    case (Inr token)
    show ?thesis
    proof
      assume "result (rd_Obtain p rnd pick c now cl key ttl opt db) = Inr l"
      then have "l = \<lparr>rd_Client = default_table cl, rd_Key = key, rd_token = token,
                      rd_metadata = OptMeta opt, rd_Until = now + ttl\<rparr>"
        using Inr by (auto simp: rd_Obtain_def Let_def dest: acquire_success)
      then show "rd_Metadata l = OptMeta opt \<and> choose_token opt rnd = Inr (rd_Token l)"
        using Inr by (simp add: rd_Metadata_def rd_Token_def)
    qed
  qed
  have kv: "result (kv_Obtain rnd pick c now key ttl kopt kv) = Inr h \<longrightarrow>
      (\<exists>tok. choose_token (or_default kopt) rnd = Inr tok
           \<and> kv_Token h = Inr tok
           \<and> kv_Metadata h = Inr (OptMeta (or_default kopt))
           \<and> GET (returned_at (kv_Obtain rnd pick c now key ttl kopt kv) div millisecond)
                  (store (kv_Obtain rnd pick c now key ttl kopt kv)) key
               = Some (tok @ OptMeta (or_default kopt)))"
  proof (cases "choose_token (or_default kopt) rnd")
    case (Inl e)
    then show ?thesis by (simp add: kv_Obtain_def)
  next
    case (Inr token)
    define out where "out = acquire (\<lambda>t. kv_obtain (t div millisecond) key
        (token @ OptMeta (or_default kopt)) (length token) (ttl sdiv millisecond))
        \<lparr>kv_Key = key, kv_value = token @ OptMeta (or_default kopt),
         kv_tokenLen = length token\<rparr>
        (GetRetryStrategy (or_default kopt)) pick
        (case Deadline c of None \<Rightarrow> now + ttl | Some d \<Rightarrow> d) (cancel_at c) now 0 kv"
    have eq: "kv_Obtain rnd pick c now key ttl kopt kv = out"
      using Inr by (simp add: kv_Obtain_def Let_def out_def)
    show ?thesis
    proof
      assume "result (kv_Obtain rnd pick c now key ttl kopt kv) = Inr h"
      then have res: "result out = Inr h" using eq by simp
      from acquire_success[OF res[unfolded out_def]]
      have hd: "h = \<lparr>kv_Key = key, kv_value = token @ OptMeta (or_default kopt),
                      kv_tokenLen = length token\<rparr>"
        and "\<exists>s0. kv_obtain (returned_at out div millisecond) key
                (token @ OptMeta (or_default kopt)) (length token) (ttl sdiv millisecond) s0
              = (Inr True, store out)"
        by (simp_all add: out_def)
      then obtain s0 where "kv_obtain (returned_at out div millisecond) key
                (token @ OptMeta (or_default kopt)) (length token) (ttl sdiv millisecond) s0
              = (Inr True, store out)" by blast
      then have "GET (returned_at out div millisecond) (store out) key
          = Some (token @ OptMeta (or_default kopt))"
        by (rule kv_obtain_success_stored)
      then show "\<exists>tok. choose_token (or_default kopt) rnd = Inr tok
           \<and> kv_Token h = Inr tok
           \<and> kv_Metadata h = Inr (OptMeta (or_default kopt))
           \<and> GET (returned_at (kv_Obtain rnd pick c now key ttl kopt kv) div millisecond)
                  (store (kv_Obtain rnd pick c now key ttl kopt kv)) key
               = Some (tok @ OptMeta (or_default kopt))"
        using Inr hd eq by (simp add: kv_Token_def kv_Metadata_def)
    qed
  qed
  show ?thesis using rd kv by blast
qed

theorem handle_round_trip_witness:
  "(\<exists>l. result (rd_Obtain \<lparr>Hostname = ''h'', ProcPid = ''7''\<rparr> None (\<lambda>_. False)
              \<lparr>Deadline = None, cancel_at = None\<rparr> 0 \<lparr>ClientTable = []\<rparr> ''k'' 100
              \<lparr>RetryStrategy = None, OptMeta = [], OptToken = ''T''\<rparr>
              \<lparr>rows = [], down = False\<rparr>) = Inr l
        \<and> rd_Metadata l = [] \<and> rd_Token l = ''T'')
   \<and> (\<exists>h. result (kv_Obtain (Some ''R'') (\<lambda>_. False) \<lparr>Deadline = None, cancel_at = None\<rparr> 0
              ''k'' 1000000000
              (Some \<lparr>RetryStrategy = None, OptMeta = [CHR 0x27, CHR ''|'', CHR 0x5C],
                     OptToken = []\<rparr>)
              \<lparr>keys = Map.empty, redis_down = False\<rparr>) = Inr h
        \<and> kv_Metadata h = Inr [CHR 0x27, CHR ''|'', CHR 0x5C] \<and> kv_Token h = Inr ''R'')"
proof -
  have a: "result (rd_Obtain \<lparr>Hostname = ''h'', ProcPid = ''7''\<rparr> None (\<lambda>_. False)
              \<lparr>Deadline = None, cancel_at = None\<rparr> 0 \<lparr>ClientTable = []\<rparr> ''k'' 100
              \<lparr>RetryStrategy = None, OptMeta = [], OptToken = ''T''\<rparr>
              \<lparr>rows = [], down = False\<rparr>)
           = Inr \<lparr>rd_Client = \<lparr>ClientTable = ''shedlock''\<rparr>, rd_Key = ''k'', rd_token = ''T'',
                  rd_metadata = [], rd_Until = 100\<rparr>"
    by (simp add: rd_Obtain_def choose_token_def Let_def default_table_def
        acquire_ok[where s' = "\<lparr>rows = [\<lparr>lock_name = ''k'', lock_until = 100, locked_at = 0,
            locked_by = ''h'', token_value = ''T'', meta_value = [], locked_pid = ''7''\<rparr>],
            down = False\<rparr>"]
        rd_obtain_def sl_insert_def)
  have b: "result (kv_Obtain (Some ''R'') (\<lambda>_. False) \<lparr>Deadline = None, cancel_at = None\<rparr> 0
              ''k'' 1000000000
              (Some \<lparr>RetryStrategy = None, OptMeta = [CHR 0x27, CHR ''|'', CHR 0x5C],
                     OptToken = []\<rparr>)
              \<lparr>keys = Map.empty, redis_down = False\<rparr>)
           = Inr \<lparr>kv_Key = ''k'', kv_value = ''R'' @ [CHR 0x27, CHR ''|'', CHR 0x5C],
                  kv_tokenLen = 1\<rparr>"
    by (simp add: kv_Obtain_def or_default_def choose_token_def Let_def
        acquire_ok[where s' = "\<lparr>keys = [''k'' \<mapsto> (''R'' @ [CHR 0x27, CHR ''|'', CHR 0x5C],
            1000)], redis_down = False\<rparr>"]
        kv_obtain_def Run_def luaObtain_def SET_NX_PX_def lookup_def millisecond_def
        signed_divide_int_def)
  show ?thesis
    using handle_round_trip[THEN conjunct1, THEN mp, OF a]
      handle_round_trip[THEN conjunct2, THEN mp, OF b] a b
    by (auto simp: or_default_def choose_token_def)
qed



end
